theory Spec2Isabelle
  imports Main
begin

section \<open>Foreman rule management (gui/plugins/foreman.py)\<close>

subsection \<open>Data model\<close>

text \<open>
  The protocol buffer \<open>jobs_pb2.ForemanRule\<close> as the plugin uses it: a description, the
  two timestamps in microseconds, the repeated field \<open>regex_rules\<close> and the repeated
  field \<open>actions\<close>. The encoded argument dictionary of an action is kept abstract
  (\<open>'argv\<close>). Python integers are unbounded, so timestamps and indices are \<open>int\<close>.
\<close>

record ForemanAttributeRegex =
  path :: string
  attribute_name :: string
  attribute_regex :: string

record 'argv ForemanRuleAction =
  flow_name :: string
  argv :: 'argv

record 'argv ForemanRule =
  description :: string
  created :: int
  expires :: int
  regex_rules :: "ForemanAttributeRegex list"
  actions :: "'argv ForemanRuleAction list"

text \<open>
  The request carries the form parameters in the dictionary \<open>request.REQ\<close>.
\<close>

record request =
  REQ :: "string \<rightharpoonup> string"

text \<open>
  The AFF4 object \<open>aff4:/foreman\<close>: its attribute \<open>RULES\<close> (\<open>None\<close> when
  \<open>fd.Get(fd.Schema.RULES)\<close> returns \<open>None\<close>) and the number of times the object was
  written (\<open>fd.Set\<close> followed by \<open>fd.Flush\<close>).
\<close>

record 'argv foreman =
  RULES :: "'argv ForemanRule list option"
  flushes :: nat

text \<open>
  What a handler can end with apart from its normal layout: a \<open>KeyError\<close> of a
  dictionary lookup, a \<open>ValueError\<close> of a conversion, the \<open>ValueError\<close> of a
  protocol buffer field that is given a value outside the range of its type, an
  exception of the flow argument helpers, and the rendered \<open>error_template\<close> with its
  message.
\<close>

datatype error =
    KeyError string
  | ValueError string
  | FieldValueError
  | ArgsError string
  | ErrorTemplate string

text \<open>
  The collaborators of \<open>ParseActionRules\<close> that live outside this file:
  \<open>flow.GRRFlow.classes\<close>, \<open>GetArgs\<close> and \<open>BuildArgs\<close> of the form base class, and
  \<open>utils.ProtoDict(args).ToProto()\<close>. Each of the two helpers may raise.
\<close>

record ('cls, 'al, 'args, 'argv) flow_env =
  classes :: "string \<rightharpoonup> 'cls"
  GetArgs :: "'cls \<Rightarrow> request \<Rightarrow> string \<Rightarrow> error + 'al"
  BuildArgs :: "'al \<Rightarrow> error + 'args"
  ToProto :: "'args \<Rightarrow> 'argv"

subsection \<open>String formatting of a loop index\<close>

text \<open>
  \<open>"path_%s" % i\<close> formats the integer \<open>i\<close> in decimal: the digits of \<open>i\<close>, most
  significant first, each \<open>d < 10\<close> as the character at position \<open>d\<close> of
  \<open>0123456789\<close>.
\<close>

definition digit_char :: "nat \<Rightarrow> char" where
  "digit_char d = ''0123456789'' ! d"

fun str_nat :: "nat \<Rightarrow> string" where
  "str_nat n = (if n < 10 then [digit_char n] else str_nat (n div 10) @ [digit_char (n mod 10)])"

declare str_nat.simps [simp del]

subsection \<open>AddForemanRuleAction\<close>

text \<open>
  \<open>ParseRegexRules\<close>: for each \<open>i\<close> in \<open>range(100)\<close> the three dictionary lookups are
  evaluated, in the order path, attribute name, regex, before \<open>regex_rules.add\<close> is
  called; a \<open>KeyError\<close> from any of them is swallowed and the loop goes on.
\<close>

definition lookup :: "request \<Rightarrow> string \<Rightarrow> error + string" where
  "lookup request k = (case REQ request k of None \<Rightarrow> Inl (KeyError k) | Some v \<Rightarrow> Inr v)"

definition ParseRegexRules_body ::
  "request \<Rightarrow> nat \<Rightarrow> 'argv ForemanRule \<Rightarrow> 'argv ForemanRule" where
  "ParseRegexRules_body request i foreman_rule =
     (case lookup request (''path_'' @ str_nat i) of
        Inl e \<Rightarrow> foreman_rule
      | Inr p \<Rightarrow>
        (case lookup request (''attribute_name_'' @ str_nat i) of
           Inl e \<Rightarrow> foreman_rule
         | Inr n \<Rightarrow>
           (case lookup request (''attribute_regex_'' @ str_nat i) of
              Inl e \<Rightarrow> foreman_rule
            | Inr r \<Rightarrow>
              foreman_rule\<lparr>regex_rules := regex_rules foreman_rule @
                [\<lparr>path = p, attribute_name = n, attribute_regex = r\<rparr>]\<rparr>)))"

definition ParseRegexRules :: "request \<Rightarrow> 'argv ForemanRule \<Rightarrow> 'argv ForemanRule" where
  "ParseRegexRules request foreman_rule =
     fold (ParseRegexRules_body request) [0..<100] foreman_rule"

text \<open>
  \<open>ParseActionRules\<close>: an absent or empty \<open>flow_name_i\<close> skips the index; otherwise the
  flow class is looked up (a \<open>KeyError\<close> for an unknown name leaves the loop and the
  method), the arguments are collected with the template \<open>"v_%s_i"\<close> and built, and the
  action is added. An exception ends the method, so the result is a sum; the rule
  object with the actions added so far is then dropped by the handler, which does not
  store it.
\<close>

definition ParseActionRules_body ::
  "('cls, 'al, 'args, 'argv) flow_env \<Rightarrow> request \<Rightarrow> nat \<Rightarrow> 'argv ForemanRule
     \<Rightarrow> error + 'argv ForemanRule" where
  "ParseActionRules_body env request i foreman_rule =
     (case REQ request (''flow_name_'' @ str_nat i) of
        None \<Rightarrow> Inr foreman_rule
      | Some fn \<Rightarrow>
        if fn = [] then Inr foreman_rule
        else
          (case classes env fn of
             None \<Rightarrow> Inl (KeyError fn)
           | Some flow_class \<Rightarrow>
             (case GetArgs env flow_class request (''v_%s_'' @ str_nat i) of
                Inl e \<Rightarrow> Inl e
              | Inr arg_list \<Rightarrow>
                (case BuildArgs env arg_list of
                   Inl e \<Rightarrow> Inl e
                 | Inr args \<Rightarrow>
                   Inr (foreman_rule\<lparr>actions := actions foreman_rule @
                     [\<lparr>flow_name = fn, argv = ToProto env args\<rparr>]\<rparr>)))))"

fun ParseActionRules_loop ::
  "('cls, 'al, 'args, 'argv) flow_env \<Rightarrow> request \<Rightarrow> nat list \<Rightarrow> 'argv ForemanRule
     \<Rightarrow> error + 'argv ForemanRule" where
  "ParseActionRules_loop env request [] foreman_rule = Inr foreman_rule"
| "ParseActionRules_loop env request (i # is) foreman_rule =
     (case ParseActionRules_body env request i foreman_rule of
        Inl e \<Rightarrow> Inl e
      | Inr foreman_rule' \<Rightarrow> ParseActionRules_loop env request is foreman_rule')"

definition ParseActionRules ::
  "('cls, 'al, 'args, 'argv) flow_env \<Rightarrow> request \<Rightarrow> 'argv ForemanRule
     \<Rightarrow> error + 'argv ForemanRule" where
  "ParseActionRules env request foreman_rule =
     ParseActionRules_loop env request [0..<100] foreman_rule"

text \<open>
  \<open>AddRuleToForeman\<close>: read the stored rules, start from an empty collection when there
  is none, append the rule, set the attribute and flush.
\<close>

definition AddRuleToForeman :: "'argv ForemanRule \<Rightarrow> 'argv foreman \<Rightarrow> 'argv foreman" where
  "AddRuleToForeman foreman_rule fd =
     (let rules = (case RULES fd of None \<Rightarrow> [] | Some rs \<Rightarrow> rs);
          rules = rules @ [foreman_rule]
      in fd\<lparr>RULES := Some rules, flushes := Suc (flushes fd)\<rparr>)"

text \<open>
  The constructor call \<open>jobs_pb2.ForemanRule(description=..., created=..., expires=...)\<close>.
  The message class is declared outside this file. Its two timestamp fields are typed
  integer fields, and assigning a value outside the range of the field type raises
  \<open>ValueError\<close>; the range is the parameter \<open>timestamp_ok\<close>. For an unsigned 64-bit
  field it is \<open>uint64_ok\<close>, which instantiates the parameter in the examples.
\<close>

definition uint64_ok :: "int \<Rightarrow> bool" where
  "uint64_ok v = (0 \<le> v \<and> v < 2 ^ 64)"

definition new_ForemanRule ::
  "(int \<Rightarrow> bool) \<Rightarrow> string \<Rightarrow> int \<Rightarrow> int \<Rightarrow> error + 'argv ForemanRule" where
  "new_ForemanRule timestamp_ok d c e =
     (if timestamp_ok c \<and> timestamp_ok e
      then Inr \<lparr>description = d, created = c, expires = e, regex_rules = [], actions = []\<rparr>
      else Inl FieldValueError)"

text \<open>
  \<open>AddForemanRuleAction.Layout\<close>. The date parser \<open>RDFDatetime.ParseFromHumanReadable\<close>
  is a parameter (\<open>None\<close> when it raises) and so is the clock read by
  \<open>aff4.RDFDatetime()\<close>. The rule is constructed before the expiry check, which
  compares the fields of the constructed message. The result is the error, or the rule
  that the layout template shows, together with the stored object.
\<close>

definition AddForemanRuleAction_Layout ::
  "('cls, 'al, 'args, 'argv) flow_env \<Rightarrow> (string \<Rightarrow> int option) \<Rightarrow> (int \<Rightarrow> bool) \<Rightarrow> int
     \<Rightarrow> request \<Rightarrow> 'argv foreman \<Rightarrow> (error + 'argv ForemanRule) \<times> 'argv foreman" where
  "AddForemanRuleAction_Layout env ParseFromHumanReadable timestamp_ok now request fd =
     (case lookup request ''expires_text'' of
        Inl e \<Rightarrow> (Inl e, fd)
      | Inr expires_text \<Rightarrow>
        (case ParseFromHumanReadable expires_text of
           None \<Rightarrow> (Inl (ValueError expires_text), fd)
         | Some expire_date \<Rightarrow>
           (case new_ForemanRule timestamp_ok
                   (case REQ request ''description'' of None \<Rightarrow> [] | Some d \<Rightarrow> d)
                   now expire_date of
              Inl e \<Rightarrow> (Inl e, fd)
            | Inr foreman_rule \<Rightarrow>
              if expires foreman_rule < created foreman_rule
              then (Inl (ErrorTemplate ''Rule already expired?''), fd)
              else
                (case ParseActionRules env request (ParseRegexRules request foreman_rule) of
                   Inl e \<Rightarrow> (Inl e, fd)
                 | Inr foreman_rule' \<Rightarrow>
                   (Inr foreman_rule', AddRuleToForeman foreman_rule' fd)))))"

subsection \<open>DeleteRule\<close>

text \<open>
  The loop \<open>for i, rule in enumerate(rules)\<close> of \<open>DeleteRule.Layout\<close>: the rule whose
  position equals \<open>rule_id\<close> is skipped, every other rule is appended to \<open>new_rules\<close>.
\<close>

fun DeleteRule_loop ::
  "int \<Rightarrow> int \<Rightarrow> 'argv ForemanRule list \<Rightarrow> 'argv ForemanRule list \<Rightarrow> 'argv ForemanRule list" where
  "DeleteRule_loop rule_id i [] new_rules = new_rules"
| "DeleteRule_loop rule_id i (rule # rules) new_rules =
     (if i = rule_id then DeleteRule_loop rule_id (i + 1) rules new_rules
      else DeleteRule_loop rule_id (i + 1) rules (new_rules @ [rule]))"

text \<open>
  \<open>int(request.REQ.get("rule_id", -1))\<close>: Python's \<open>int\<close> on the request string is a
  parameter (\<open>None\<close> when it raises \<open>ValueError\<close>); without a \<open>rule_id\<close> parameter
  the index is \<open>-1\<close>.
\<close>

definition get_rule_id :: "(string \<Rightarrow> int option) \<Rightarrow> request \<Rightarrow> error + int" where
  "get_rule_id py_int request =
     (case REQ request ''rule_id'' of
        None \<Rightarrow> Inr (- 1)
      | Some s \<Rightarrow> (case py_int s of None \<Rightarrow> Inl (ValueError s) | Some n \<Rightarrow> Inr n))"

text \<open>
  \<open>DeleteRule.Layout\<close>. The normal result is the index that the layout template
  shows. The object is written only inside the \<open>if\<close>.
\<close>

definition DeleteRule_Layout ::
  "(string \<Rightarrow> int option) \<Rightarrow> request \<Rightarrow> 'argv foreman \<Rightarrow> (error + int) \<times> 'argv foreman" where
  "DeleteRule_Layout py_int request fd =
     (case get_rule_id py_int request of
        Inl e \<Rightarrow> (Inl e, fd)
      | Inr rule_id \<Rightarrow>
        (let rules = RULES fd;
             new_rules = []
         in if rule_id \<ge> 0 \<and> rules \<noteq> None
            then (Inr rule_id,
                  fd\<lparr>RULES := Some (DeleteRule_loop rule_id 0 (the rules) new_rules),
                     flushes := Suc (flushes fd)\<rparr>)
            else (Inr rule_id, fd)))"

subsection \<open>Decimal strings\<close>

text \<open>
  A reading of plain decimal strings (an optional minus sign and digits), on which it
  agrees with Python's \<open>int\<close>. It instantiates the \<open>py_int\<close> parameter in the examples.
\<close>

definition is_digit :: "char \<Rightarrow> bool" where
  "is_digit c = (48 \<le> (of_char c :: nat) \<and> (of_char c :: nat) \<le> 57)"

definition digits_val :: "string \<Rightarrow> nat" where
  "digits_val s = foldl (\<lambda>a c. 10 * a + (of_char c - 48)) 0 s"

definition dec_int :: "string \<Rightarrow> int option" where
  "dec_int s =
     (case s of
        [] \<Rightarrow> None
      | c # cs \<Rightarrow>
        if c = CHR ''-''
        then (if cs \<noteq> [] \<and> list_all is_digit cs then Some (- int (digits_val cs)) else None)
        else (if list_all is_digit s then Some (int (digits_val s)) else None))"

subsection \<open>Vocabulary for the two form parsers\<close>

text \<open>
  The three lookups of \<open>ParseRegexRules\<close> at index \<open>i\<close> all succeed, and the
  condition that \<open>regex_rules.add\<close> then builds from them.
\<close>

abbreviation (input) regex_keys_present :: "request \<Rightarrow> nat \<Rightarrow> bool" where
  "regex_keys_present request i \<equiv>
     REQ request (''path_'' @ str_nat i) \<noteq> None \<and>
     REQ request (''attribute_name_'' @ str_nat i) \<noteq> None \<and>
     REQ request (''attribute_regex_'' @ str_nat i) \<noteq> None"

abbreviation (input) regex_rule_at :: "request \<Rightarrow> nat \<Rightarrow> ForemanAttributeRegex" where
  "regex_rule_at request i \<equiv>
     \<lparr>path = the (REQ request (''path_'' @ str_nat i)),
      attribute_name = the (REQ request (''attribute_name_'' @ str_nat i)),
      attribute_regex = the (REQ request (''attribute_regex_'' @ str_nat i))\<rparr>"

text \<open>
  Index \<open>i\<close> passes \<open>if not flow_name: continue\<close> of \<open>ParseActionRules\<close>, and the
  action that the loop body adds for index \<open>i\<close>: the flow name of \<open>flow_name_i\<close>, with
  the arguments collected under the template \<open>v_%s_i\<close> for the class of that flow.
\<close>

abbreviation (input) flow_named :: "request \<Rightarrow> nat \<Rightarrow> bool" where
  "flow_named request i \<equiv>
     (\<exists>fn. REQ request (''flow_name_'' @ str_nat i) = Some fn \<and> fn \<noteq> [])"

abbreviation (input) action_for ::
  "('cls, 'al, 'args, 'argv) flow_env \<Rightarrow> request \<Rightarrow> nat \<Rightarrow> 'argv ForemanRuleAction \<Rightarrow> bool" where
  "action_for env request i a \<equiv>
     REQ request (''flow_name_'' @ str_nat i) = Some (flow_name a) \<and>
     (\<exists>flow_class arg_list args.
        classes env (flow_name a) = Some flow_class \<and>
        GetArgs env flow_class request (''v_%s_'' @ str_nat i) = Inr arg_list \<and>
        BuildArgs env arg_list = Inr args \<and>
        argv a = ToProto env args)"

section \<open>The Foreman engine\<close>

text \<open>
  The engine that evaluates the stored rules for a client is not part of
  gui/plugins/foreman.py. Its definitions below follow the specification of the
  engine (sections 3 and 4). A rule is the \<open>ForemanRule\<close> above: its conditions are
  \<open>regex_rules\<close>, the pattern of a condition is \<open>attribute_regex\<close>, the task name of an
  action is \<open>flow_name\<close> and its arguments are \<open>argv\<close>. A client attribute snapshot is
  a map from attribute names to the string form of the values, the ledger a map from
  client identifiers to watermarks.
\<close>

text \<open>
  Modelled from the spec: the Condition Evaluator's test of one condition (3 and 4.2),
  which is not in this file. The condition matches iff the named attribute is present
  in the snapshot and the pattern, applied as a search, matches its string form. The
  regular expression search is the parameter \<open>re_search pattern value\<close>; it is
  \<open>None\<close> for a pattern that does not compile, and such a condition does not match (7).
\<close>

definition condition_matches ::
  "(string \<Rightarrow> string \<Rightarrow> bool option) \<Rightarrow> (string \<rightharpoonup> string) \<Rightarrow> ForemanAttributeRegex \<Rightarrow> bool" where
  "condition_matches re_search snapshot c =
     (case snapshot (attribute_name c) of
        None \<Rightarrow> False
      | Some v \<Rightarrow> (case re_search (attribute_regex c) v of None \<Rightarrow> False | Some b \<Rightarrow> b))"

text \<open>
  Modelled from the spec: the AND over all conditions of 4.2, which is not in this
  file. A failing condition short-circuits the whole rule to false; the empty list
  matches.
\<close>

fun all_conditions ::
  "(string \<Rightarrow> string \<Rightarrow> bool option) \<Rightarrow> (string \<rightharpoonup> string) \<Rightarrow> ForemanAttributeRegex list \<Rightarrow> bool" where
  "all_conditions re_search snapshot [] = True"
| "all_conditions re_search snapshot (c # cs) =
     (if condition_matches re_search snapshot c then all_conditions re_search snapshot cs
      else False)"

text \<open>
  Modelled from the spec: \<open>Matches(rule, snapshot)\<close> of the Condition Evaluator (4.2),
  which is not in this file.
\<close>

definition Matches ::
  "(string \<Rightarrow> string \<Rightarrow> bool option) \<Rightarrow> 'argv ForemanRule \<Rightarrow> (string \<rightharpoonup> string) \<Rightarrow> bool" where
  "Matches re_search rule snapshot = all_conditions re_search snapshot (regex_rules rule)"

text \<open>
  Modelled from the spec: \<open>ShouldFire\<close> of the Dispatch Ledger (4.3), which is not in
  this file. It is true iff the rule is not recorded as fired for the client, by
  comparing the rule's creation timestamp with the client's watermark; a client without
  a record has fired nothing.
\<close>

definition ShouldFire :: "('c \<rightharpoonup> int) \<Rightarrow> 'c \<Rightarrow> 'argv ForemanRule \<Rightarrow> bool" where
  "ShouldFire ledger client rule =
     (case ledger client of None \<Rightarrow> True | Some w \<Rightarrow> w < created rule)"

text \<open>
  Modelled from the spec: \<open>RecordFired\<close> of the Dispatch Ledger (4.3), which is not in
  this file. It advances the client's watermark to the maximum of the current watermark
  and the rule's creation timestamp; the record is created on first use.
\<close>

definition RecordFired :: "('c \<rightharpoonup> int) \<Rightarrow> 'c \<Rightarrow> 'argv ForemanRule \<Rightarrow> ('c \<rightharpoonup> int)" where
  "RecordFired ledger client rule =
     ledger(client \<mapsto> (case ledger client of None \<Rightarrow> created rule | Some w \<Rightarrow> max w (created rule)))"

text \<open>
  Modelled from the spec: \<open>Dispatch\<close> of the Action Dispatcher (4.5), which is not in
  this file. Every action is attempted in order through the external capability
  \<open>StartTask client task_name arguments\<close> (true when the task was started); the rule
  counts as fired only if no action failed.
\<close>

fun Dispatch ::
  "('c \<Rightarrow> string \<Rightarrow> 'argv \<Rightarrow> bool) \<Rightarrow> 'c \<Rightarrow> 'argv ForemanRuleAction list \<Rightarrow> bool" where
  "Dispatch StartTask client [] = True"
| "Dispatch StartTask client (a # as) =
     (let started = StartTask client (flow_name a) (argv a);
          rest = Dispatch StartTask client as
      in started \<and> rest)"

text \<open>
  Modelled from the spec: steps 2 and 3 of \<open>Evaluate\<close> (4.4), which is not in this
  file. Rules with \<open>now \<ge> expires\<close> are filtered out, then rules whose \<open>created\<close> is at
  most the client's current watermark.
\<close>

definition Evaluate_candidates ::
  "int \<Rightarrow> 'argv ForemanRule list \<Rightarrow> 'c \<Rightarrow> ('c \<rightharpoonup> int) \<Rightarrow> 'argv ForemanRule list" where
  "Evaluate_candidates now rules client ledger =
     (let active = filter (\<lambda>r. \<not> now \<ge> expires r) rules
      in filter (\<lambda>r. case ledger client of None \<Rightarrow> True | Some w \<Rightarrow> \<not> created r \<le> w) active)"

text \<open>
  Modelled from the spec: step 4 of \<open>Evaluate\<close> (4.4), which is not in this file. For
  each remaining rule in turn: if it matches and should fire, its actions are
  dispatched, and the firing is recorded unless the dispatch failed. The result lists
  the dispatched rules, each with the outcome of its dispatch, and the ledger.
\<close>

fun Evaluate_loop ::
  "(string \<Rightarrow> string \<Rightarrow> bool option) \<Rightarrow> ('c \<Rightarrow> string \<Rightarrow> 'argv \<Rightarrow> bool) \<Rightarrow> 'c
     \<Rightarrow> (string \<rightharpoonup> string) \<Rightarrow> 'argv ForemanRule list \<Rightarrow> ('c \<rightharpoonup> int)
     \<Rightarrow> ('argv ForemanRule \<times> bool) list \<times> ('c \<rightharpoonup> int)" where
  "Evaluate_loop re_search StartTask client snapshot [] ledger = ([], ledger)"
| "Evaluate_loop re_search StartTask client snapshot (r # rs) ledger =
     (if Matches re_search r snapshot \<and> ShouldFire ledger client r
      then
        (let ok = Dispatch StartTask client (actions r);
             ledger' = (if ok then RecordFired ledger client r else ledger);
             (log, ledger'') = Evaluate_loop re_search StartTask client snapshot rs ledger'
         in ((r, ok) # log, ledger''))
      else Evaluate_loop re_search StartTask client snapshot rs ledger)"

text \<open>
  Modelled from the spec: step 5 of \<open>Evaluate\<close> (4.4), which is not in this file. The
  watermark advances to the maximum \<open>created\<close> among the rules considered in step 3.
\<close>

definition AdvanceWatermark ::
  "('c \<rightharpoonup> int) \<Rightarrow> 'c \<Rightarrow> 'argv ForemanRule list \<Rightarrow> ('c \<rightharpoonup> int)" where
  "AdvanceWatermark ledger client rules = fold (\<lambda>r l. RecordFired l client r) rules ledger"

text \<open>
  Modelled from the spec: \<open>Evaluate(client_id, snapshot)\<close> of the Foreman Engine (4.4),
  which is not in this file. The loaded rule set, the current time and the ledger are
  arguments; step 4 runs in ascending \<open>created\<close> order.
\<close>

definition Evaluate ::
  "(string \<Rightarrow> string \<Rightarrow> bool option) \<Rightarrow> ('c \<Rightarrow> string \<Rightarrow> 'argv \<Rightarrow> bool) \<Rightarrow> int
     \<Rightarrow> 'argv ForemanRule list \<Rightarrow> 'c \<Rightarrow> (string \<rightharpoonup> string) \<Rightarrow> ('c \<rightharpoonup> int)
     \<Rightarrow> ('argv ForemanRule \<times> bool) list \<times> ('c \<rightharpoonup> int)" where
  "Evaluate re_search StartTask now rules client snapshot ledger =
     (let considered = Evaluate_candidates now rules client ledger;
          (log, ledger') =
            Evaluate_loop re_search StartTask client snapshot (sort_key created considered) ledger
      in (log, AdvanceWatermark ledger' client considered))"

text \<open>
  Modelled from the spec: one later evaluation pass (4.4 and 5), which is not in this
  file: the inputs of an \<open>Evaluate\<close> call for some client at some time. Passes run one
  after the other on the ledger.
\<close>

record ('c, 'argv) pass =
  pass_StartTask :: "'c \<Rightarrow> string \<Rightarrow> 'argv \<Rightarrow> bool"
  pass_now :: int
  pass_rules :: "'argv ForemanRule list"
  pass_client :: 'c
  pass_snapshot :: "string \<rightharpoonup> string"

text \<open>
  Modelled from the spec: the effect on the ledger of running such a pass (4.4), which
  is not in this file.
\<close>

definition run_pass ::
  "(string \<Rightarrow> string \<Rightarrow> bool option) \<Rightarrow> ('c, 'argv) pass \<Rightarrow> ('c \<rightharpoonup> int) \<Rightarrow> ('c \<rightharpoonup> int)" where
  "run_pass re_search p ledger =
     snd (Evaluate re_search (pass_StartTask p) (pass_now p) (pass_rules p) (pass_client p)
            (pass_snapshot p) ledger)"

text \<open>
  Modelled from the spec: the reading of the ledger by watermark comparison (3 and
  4.3), which is not in this file: the client has a watermark, and it is at least \<open>t\<close>.
\<close>

definition watermark_reached :: "('c \<rightharpoonup> int) \<Rightarrow> 'c \<Rightarrow> int \<Rightarrow> bool" where
  "watermark_reached ledger client t = (case ledger client of None \<Rightarrow> False | Some w \<Rightarrow> t \<le> w)"

section \<open>Properties of the rule store operations\<close>

subsection \<open>Helper lemmas\<close>

lemma DeleteRule_loop_past:
  "rule_id < i \<Longrightarrow> DeleteRule_loop rule_id i rs acc = acc @ rs"
  by (induction rs arbitrary: i acc) auto

lemma DeleteRule_loop_omit:
  "i \<le> rule_id \<Longrightarrow>
   DeleteRule_loop rule_id i rs acc =
     acc @ take (nat (rule_id - i)) rs @ drop (Suc (nat (rule_id - i))) rs"
proof (induction rs arbitrary: i acc)
  case Nil
  then show ?case by simp
next
  case (Cons r rs)
  show ?case
  proof (cases "i = rule_id")
    case True
    then show ?thesis by (simp add: DeleteRule_loop_past)
  next
    case False
    with Cons.prems have lt: "i + 1 \<le> rule_id" by simp
    have k: "nat (rule_id - i) = Suc (nat (rule_id - (i + 1)))" using lt by simp
    show ?thesis using False Cons.IH [OF lt, of "acc @ [r]"] by (simp add: k)
  qed
qed

lemma dec_int_examples:
  "dec_int ''-1'' = Some (- 1)" "dec_int ''-3'' = Some (- 3)" "dec_int ''0'' = Some 0"
  "dec_int ''1'' = Some 1" "dec_int ''5'' = Some 5"
  by (simp_all add: dec_int_def is_digit_def digits_val_def)

subsection \<open>Appending a rule\<close>

text \<open>
  C4: whatever is stored (nothing, or a list of rules), \<open>AddRuleToForeman\<close> stores the
  old rules unchanged and in the same order, followed by the new rule as last element.
\<close>

theorem AddRuleToForeman_appends:
  "RULES (AddRuleToForeman foreman_rule fd) =
     Some ((case RULES fd of None \<Rightarrow> [] | Some rs \<Rightarrow> rs) @ [foreman_rule])"
  by (simp add: AddRuleToForeman_def)

subsection \<open>Removing a rule\<close>

text \<open>
  C3: with rules stored and an index \<open>0 \<le> rule_id < length rules\<close>, \<open>DeleteRule\<close> writes
  the old list with exactly the element at position \<open>rule_id\<close> left out: the elements
  before it and the elements after it, in their old order.
\<close>

theorem DeleteRule_removes_index:
  assumes "get_rule_id py_int request = Inr rule_id"
    and "RULES fd = Some rules"
    and "0 \<le> rule_id" and "rule_id < int (length rules)"
  shows "DeleteRule_Layout py_int request fd =
           (Inr rule_id,
            fd\<lparr>RULES := Some (take (nat rule_id) rules @ drop (Suc (nat rule_id)) rules),
               flushes := Suc (flushes fd)\<rparr>)"
  using assms by (simp add: DeleteRule_Layout_def DeleteRule_loop_omit)

theorem DeleteRule_removes_index_witness:
  "get_rule_id dec_int \<lparr>REQ = [''rule_id'' \<mapsto> ''1'']\<rparr> = Inr 1 \<and>
   DeleteRule_Layout dec_int \<lparr>REQ = [''rule_id'' \<mapsto> ''1'']\<rparr>
     \<lparr>RULES = Some
        [\<lparr>description = ''a'', created = 100, expires = 200, regex_rules = [],
          actions = ([] :: unit ForemanRuleAction list)\<rparr>,
         \<lparr>description = ''b'', created = 110, expires = 210, regex_rules = [], actions = []\<rparr>,
         \<lparr>description = ''c'', created = 120, expires = 220, regex_rules = [], actions = []\<rparr>],
      flushes = 0\<rparr> =
   (Inr 1,
    \<lparr>RULES = Some
       [\<lparr>description = ''a'', created = 100, expires = 200, regex_rules = [], actions = []\<rparr>,
        \<lparr>description = ''c'', created = 120, expires = 220, regex_rules = [], actions = []\<rparr>],
     flushes = 1\<rparr>)"
proof -
  have g: "get_rule_id dec_int \<lparr>REQ = [''rule_id'' \<mapsto> ''1'']\<rparr> = Inr 1"
    by (simp add: get_rule_id_def dec_int_examples)
  show ?thesis
    using g DeleteRule_removes_index [OF g, of
      "\<lparr>RULES = Some
        [\<lparr>description = ''a'', created = 100, expires = 200, regex_rules = [],
          actions = ([] :: unit ForemanRuleAction list)\<rparr>,
         \<lparr>description = ''b'', created = 110, expires = 210, regex_rules = [], actions = []\<rparr>,
         \<lparr>description = ''c'', created = 120, expires = 220, regex_rules = [], actions = []\<rparr>],
      flushes = 0\<rparr>"]
    by simp
qed

text \<open>
  C10: when the request has no \<open>rule_id\<close> (the index is then \<open>-1\<close>), or its index is
  negative, or no rule collection is stored, \<open>DeleteRule\<close> leaves the stored object as
  it was: neither the rules nor the number of writes change.
\<close>

theorem DeleteRule_no_write:
  assumes "REQ request ''rule_id'' = None \<or>
           (\<exists>n. n < 0 \<and> get_rule_id py_int request = Inr n) \<or>
           RULES fd = None"
  shows "snd (DeleteRule_Layout py_int request fd) = fd"
  using assms
  by (auto simp: DeleteRule_Layout_def get_rule_id_def split: sum.splits option.splits)

theorem DeleteRule_no_write_witness:
  "get_rule_id dec_int \<lparr>REQ = [''rule_id'' \<mapsto> ''-3'']\<rparr> = Inr (- 3) \<and>
   snd (DeleteRule_Layout dec_int \<lparr>REQ = [''rule_id'' \<mapsto> ''-3'']\<rparr>
     \<lparr>RULES = Some
        [\<lparr>description = ''a'', created = 100, expires = 200, regex_rules = [],
          actions = ([] :: unit ForemanRuleAction list)\<rparr>],
      flushes = 7\<rparr>) =
   \<lparr>RULES = Some
        [\<lparr>description = ''a'', created = 100, expires = 200, regex_rules = [],
          actions = ([] :: unit ForemanRuleAction list)\<rparr>],
      flushes = 7\<rparr>"
proof -
  have g: "get_rule_id dec_int \<lparr>REQ = [''rule_id'' \<mapsto> ''-3'']\<rparr> = Inr (- 3)"
    by (simp add: get_rule_id_def dec_int_examples)
  then have h: "\<exists>n. n < 0 \<and> get_rule_id dec_int \<lparr>REQ = [''rule_id'' \<mapsto> ''-3'']\<rparr> = Inr n"
    by simp
  show ?thesis
    using g DeleteRule_no_write [OF disjI2, OF disjI1, OF h] by simp
qed

text \<open>
  C2, as the code has it: for an index that is no position of the stored rules
  (negative, or at least the number of stored rules, which is 0 when none are stored),
  \<open>DeleteRule\<close> raises nothing. It returns its normal layout with that index, and the
  stored rules are the same as before.
\<close>

theorem DeleteRule_invalid_index_succeeds:
  assumes "get_rule_id py_int request = Inr rule_id"
    and "rule_id < 0 \<or> int (length (case RULES fd of None \<Rightarrow> [] | Some rs \<Rightarrow> rs)) \<le> rule_id"
  shows "fst (DeleteRule_Layout py_int request fd) = Inr rule_id \<and>
         RULES (snd (DeleteRule_Layout py_int request fd)) = RULES fd"
  using assms
  by (auto simp: DeleteRule_Layout_def DeleteRule_loop_omit split: option.splits)

theorem DeleteRule_invalid_index_succeeds_witness:
  "get_rule_id dec_int \<lparr>REQ = [''rule_id'' \<mapsto> ''5'']\<rparr> = Inr 5 \<and>
   fst (DeleteRule_Layout dec_int \<lparr>REQ = [''rule_id'' \<mapsto> ''5'']\<rparr>
     \<lparr>RULES = Some
        [\<lparr>description = ''a'', created = 100, expires = 200, regex_rules = [],
          actions = ([] :: unit ForemanRuleAction list)\<rparr>],
      flushes = 0\<rparr>) = Inr 5 \<and>
   RULES (snd (DeleteRule_Layout dec_int \<lparr>REQ = [''rule_id'' \<mapsto> ''5'']\<rparr>
     \<lparr>RULES = Some
        [\<lparr>description = ''a'', created = 100, expires = 200, regex_rules = [],
          actions = ([] :: unit ForemanRuleAction list)\<rparr>],
      flushes = 0\<rparr>)) =
     Some [\<lparr>description = ''a'', created = 100, expires = 200, regex_rules = [],
          actions = ([] :: unit ForemanRuleAction list)\<rparr>]"
proof -
  have g: "get_rule_id dec_int \<lparr>REQ = [''rule_id'' \<mapsto> ''5'']\<rparr> = Inr 5"
    by (simp add: get_rule_id_def dec_int_examples)
  show ?thesis
    using g DeleteRule_invalid_index_succeeds [OF g, of
      "\<lparr>RULES = Some
        [\<lparr>description = ''a'', created = 100, expires = 200, regex_rules = [],
          actions = ([] :: unit ForemanRuleAction list)\<rparr>],
      flushes = 0\<rparr>"]
    by simp
qed

text \<open>
  C2 as stated does not hold: the index 5 is no position of a one-element collection,
  and the default index \<open>-1\<close> is none either, yet both requests end with the normal
  layout and not with an error.
\<close>

theorem DeleteRule_invalid_index_counterexample:
  "\<not> (0 \<le> (5::int) \<and> (5::int) < int (length
        [\<lparr>description = ''a'', created = 100, expires = 200, regex_rules = [],
          actions = ([] :: unit ForemanRuleAction list)\<rparr>])) \<and>
   DeleteRule_Layout dec_int \<lparr>REQ = [''rule_id'' \<mapsto> ''5'']\<rparr>
     \<lparr>RULES = Some
        [\<lparr>description = ''a'', created = 100, expires = 200, regex_rules = [],
          actions = ([] :: unit ForemanRuleAction list)\<rparr>],
      flushes = 0\<rparr> =
   (Inr 5,
    \<lparr>RULES = Some
        [\<lparr>description = ''a'', created = 100, expires = 200, regex_rules = [],
          actions = ([] :: unit ForemanRuleAction list)\<rparr>],
      flushes = 1\<rparr>) \<and>
   DeleteRule_Layout dec_int \<lparr>REQ = Map.empty\<rparr>
     \<lparr>RULES = Some
        [\<lparr>description = ''a'', created = 100, expires = 200, regex_rules = [],
          actions = ([] :: unit ForemanRuleAction list)\<rparr>],
      flushes = 0\<rparr> =
   (Inr (- 1),
    \<lparr>RULES = Some
        [\<lparr>description = ''a'', created = 100, expires = 200, regex_rules = [],
          actions = ([] :: unit ForemanRuleAction list)\<rparr>],
      flushes = 0\<rparr>)"
  by (simp add: DeleteRule_Layout_def get_rule_id_def dec_int_examples)

section \<open>Properties of the form handler\<close>

subsection \<open>Helper lemmas\<close>

lemma upt_100: "[0..<100] = 0 # 1 # [2..<100]"
  by (simp add: upt_rec [of 0] upt_rec [of "Suc 0"] numeral_2_eq_2)

lemma ParseRegexRules_body_eq:
  "ParseRegexRules_body request i r =
     (if regex_keys_present request i
      then r\<lparr>regex_rules := regex_rules r @ [regex_rule_at request i]\<rparr>
      else r)"
  by (auto simp: ParseRegexRules_body_def lookup_def split: option.splits)

lemma ParseRegexRules_fold:
  "fold (ParseRegexRules_body request) ns r =
     r\<lparr>regex_rules := regex_rules r @
        map (regex_rule_at request) (filter (regex_keys_present request) ns)\<rparr>"
proof (induction ns arbitrary: r)
  case Nil
  then show ?case by simp
next
  case (Cons n ns)
  show ?case
    by (simp only: fold_simps Cons.IH ParseRegexRules_body_eq [of request n r]) simp
qed

lemma ParseRegexRules_no_path:
  "(\<And>s. REQ request (''path_'' @ s) = None) \<Longrightarrow> ParseRegexRules request r = r"
  by (simp add: ParseRegexRules_def ParseRegexRules_fold)

lemma ParseActionRules_loop_no_flow:
  "(\<And>s. REQ request (''flow_name_'' @ s) = None) \<Longrightarrow>
   ParseActionRules_loop env request ns r = Inr r"
  by (induction ns) (simp_all add: ParseActionRules_body_def)

lemma ParseActionRules_body_cases:
  "(\<not> flow_named request i \<and> ParseActionRules_body env request i r = Inr r) \<or>
   (flow_named request i \<and>
      (\<exists>a. action_for env request i a \<and>
           ParseActionRules_body env request i r = Inr (r\<lparr>actions := actions r @ [a]\<rparr>))) \<or>
   (flow_named request i \<and> \<not> (\<exists>a. action_for env request i a) \<and>
      (\<exists>e. ParseActionRules_body env request i r = Inl e))"
proof (cases "REQ request (''flow_name_'' @ str_nat i)")
  case None
  then show ?thesis by (simp add: ParseActionRules_body_def)
next
  case (Some fn)
  note fn = Some
  show ?thesis
  proof (cases "fn = []")
    case True
    with fn show ?thesis by (simp add: ParseActionRules_body_def)
  next
    case ne: False
    show ?thesis
    proof (cases "classes env fn")
      case None
      with fn ne show ?thesis by (auto simp: ParseActionRules_body_def)
    next
      case (Some flow_class)
      note cl = Some
      show ?thesis
      proof (cases "GetArgs env flow_class request (''v_%s_'' @ str_nat i)")
        case (Inl e)
        with fn ne cl show ?thesis by (auto simp: ParseActionRules_body_def)
      next
        case (Inr arg_list)
        note ga = Inr
        show ?thesis
        proof (cases "BuildArgs env arg_list")
          case (Inl e)
          with fn ne cl ga show ?thesis by (auto simp: ParseActionRules_body_def)
        next
          case (Inr args)
          have "action_for env request i \<lparr>flow_name = fn, argv = ToProto env args\<rparr>"
            using fn cl ga Inr by simp
          moreover have "ParseActionRules_body env request i r =
              Inr (r\<lparr>actions := actions r @ [\<lparr>flow_name = fn, argv = ToProto env args\<rparr>]\<rparr>)"
            using fn ne cl ga Inr by (simp add: ParseActionRules_body_def)
          ultimately show ?thesis using fn ne by blast
        qed
      qed
    qed
  qed
qed

lemma ParseActionRules_loop_char:
  "case ParseActionRules_loop env request ns r of
     Inr r' \<Rightarrow>
       (\<exists>acts. r' = r\<lparr>actions := actions r @ acts\<rparr> \<and>
               list_all2 (action_for env request) (filter (flow_named request) ns) acts)
   | Inl e \<Rightarrow> (\<exists>i \<in> set ns. flow_named request i \<and> \<not> (\<exists>a. action_for env request i a))"
proof -
  define P where "P = (\<lambda>i. flow_named request i)"
  define R where "R = (\<lambda>i a. action_for env request i a)"
  have body: "(\<not> P i \<and> ParseActionRules_body env request i r = Inr r) \<or>
      (P i \<and> (\<exists>a. R i a \<and>
          ParseActionRules_body env request i r = Inr (r\<lparr>actions := actions r @ [a]\<rparr>))) \<or>
      (P i \<and> \<not> (\<exists>a. R i a) \<and> (\<exists>e. ParseActionRules_body env request i r = Inl e))"
    for i r
    unfolding P_def R_def by (rule ParseActionRules_body_cases)
  have "case ParseActionRules_loop env request ns r of
     Inr r' \<Rightarrow> (\<exists>acts. r' = r\<lparr>actions := actions r @ acts\<rparr> \<and> list_all2 R (filter P ns) acts)
   | Inl e \<Rightarrow> (\<exists>i \<in> set ns. P i \<and> \<not> (\<exists>a. R i a))"
  proof (induction ns arbitrary: r)
    case Nil
    show ?case by simp
  next
    case (Cons n ns)
    consider
      (skip) "\<not> P n" "ParseActionRules_body env request n r = Inr r"
    | (add) a where "P n" "R n a"
        "ParseActionRules_body env request n r = Inr (r\<lparr>actions := actions r @ [a]\<rparr>)"
    | (fail) e where "P n" "\<not> (\<exists>a. R n a)"
        "ParseActionRules_body env request n r = Inl e"
      using body [of n r] by blast
    then show ?case
    proof cases
      case skip
      show ?thesis
        using Cons.IH [where r = r] skip
        by (auto split: sum.splits)
    next
      case add
      let ?r1 = "r\<lparr>actions := actions r @ [a]\<rparr>"
      show ?thesis
      proof (cases "ParseActionRules_loop env request ns ?r1")
        case (Inl e)
        then show ?thesis using Cons.IH [where r = ?r1] add(3) by auto
      next
        case (Inr r')
        then obtain acts where r': "r' = ?r1\<lparr>actions := actions ?r1 @ acts\<rparr>"
          and l2: "list_all2 R (filter P ns) acts"
          using Cons.IH [where r = ?r1] by auto
        have "r' = r\<lparr>actions := actions r @ (a # acts)\<rparr>" using r' by simp
        moreover have "list_all2 R (filter P (n # ns)) (a # acts)"
          using add(1,2) l2 by simp
        ultimately show ?thesis using Inr add(3) by auto
      qed
    next
      case fail
      then show ?thesis by auto
    qed
  qed
  then show ?thesis unfolding P_def R_def .
qed

subsection \<open>Regex conditions\<close>

text \<open>
  C8: \<open>ParseRegexRules\<close> scans the indices 0 to 99 in ascending order and appends, for
  exactly those indices at which \<open>path_i\<close>, \<open>attribute_name_i\<close> and \<open>attribute_regex_i\<close>
  are all present, the condition made of the three values; nothing else of the rule
  changes, an index with a missing key adds nothing and the scan goes on after it. At
  most 100 conditions are added.
\<close>

theorem ParseRegexRules_conditions:
  "ParseRegexRules request foreman_rule =
     foreman_rule\<lparr>regex_rules := regex_rules foreman_rule @
        map (regex_rule_at request) (filter (regex_keys_present request) [0..<100])\<rparr> \<and>
   length (regex_rules (ParseRegexRules request foreman_rule)) \<le>
     length (regex_rules foreman_rule) + 100"
proof -
  have le: "length (filter P [0..<100]) \<le> 100" for P :: "nat \<Rightarrow> bool"
    using length_filter_le [of P "[0..<100]"] by simp
  show ?thesis
    unfolding ParseRegexRules_def ParseRegexRules_fold
    using le by simp
qed

text \<open>
  An example for C8: index 0 has only its path and adds nothing, index 1 is complete and
  adds its condition.
\<close>

theorem ParseRegexRules_conditions_witness:
  "ParseRegexRules
      \<lparr>REQ = [''path_0'' \<mapsto> ''/'', ''path_1'' \<mapsto> ''/etc'', ''attribute_name_1'' \<mapsto> ''os'',
        ''attribute_regex_1'' \<mapsto> ''^Linux'']\<rparr>
      \<lparr>description = ''d'', created = 100, expires = 200, regex_rules = [],
      actions = ([] :: unit ForemanRuleAction list)\<rparr> =
   \<lparr>description = ''d'', created = 100, expires = 200,
    regex_rules = [\<lparr>path = ''/etc'', attribute_name = ''os'', attribute_regex = ''^Linux''\<rparr>],
    actions = []\<rparr>"
  by (simp add: ParseRegexRules_conditions [THEN conjunct1] upt_100 str_nat.simps digit_char_def)

subsection \<open>Actions\<close>

text \<open>
  C9: when \<open>ParseActionRules\<close> returns, the rule has gained, for exactly the indices
  among 0 to 99 whose \<open>flow_name_i\<close> is present and not empty, in ascending order, one
  action each, which carries the flow name and the arguments of that index; these are
  at most 100, and an index without a flow name adds nothing and does not stop the
  scan. The method raises only if some index names a flow for which no action can be
  built (an unknown flow, or arguments that are refused).
\<close>

theorem ParseActionRules_actions:
  "case ParseActionRules env request foreman_rule of
     Inr r' \<Rightarrow>
       (\<exists>acts. r' = foreman_rule\<lparr>actions := actions foreman_rule @ acts\<rparr> \<and>
               list_all2 (action_for env request) (filter (flow_named request) [0..<100]) acts \<and>
               length acts \<le> 100)
   | Inl e \<Rightarrow> (\<exists>i<100. flow_named request i \<and> \<not> (\<exists>a. action_for env request i a))"
proof (cases "ParseActionRules env request foreman_rule")
  case (Inl e)
  then show ?thesis
    using ParseActionRules_loop_char [where env = env and request = request and ns = "[0..<100]" and r = foreman_rule]
    by (auto simp: ParseActionRules_def)
next
  case (Inr r')
  then obtain acts where r': "r' = foreman_rule\<lparr>actions := actions foreman_rule @ acts\<rparr>"
    and l2: "list_all2 (action_for env request) (filter (flow_named request) [0..<100]) acts"
    using ParseActionRules_loop_char [where env = env and request = request and ns = "[0..<100]" and r = foreman_rule]
    by (auto simp: ParseActionRules_def)
  have "length acts = length (filter (flow_named request) [0..<100])"
    using l2 by (simp add: list_all2_lengthD)
  also have "\<dots> \<le> 100"
    using length_filter_le [of "flow_named request" "[0..<100]"] by simp
  finally have "length acts \<le> 100" .
  then show ?thesis using Inr r' l2 by auto
qed

text \<open>
  An example for C9: index 0 has an empty flow name, index 1 has none, index 2 names a
  flow and is the only one to add an action.
\<close>

theorem ParseActionRules_actions_witness:
  "ParseActionRules
      \<lparr>classes = [''ListDirectory'' \<mapsto> ''dir''],
        GetArgs = (\<lambda>flow_class request arg_template. Inr [flow_class, arg_template]),
        BuildArgs = (\<lambda>arg_list. Inr arg_list), ToProto = (\<lambda>args. args)\<rparr>
      \<lparr>REQ = [''flow_name_0'' \<mapsto> '''', ''flow_name_2'' \<mapsto> ''ListDirectory'']\<rparr>
      \<lparr>description = ''d'', created = 100, expires = 200, regex_rules = [], actions = []\<rparr> = Inr
      \<lparr>description = ''d'', created = 100, expires = 200, regex_rules = [],
        actions = [\<lparr>flow_name = ''ListDirectory'', argv = [''dir'', ''v_%s_2'']\<rparr>]\<rparr> \<and>
   (\<exists>acts.
      \<lparr>description = ''d'', created = 100, expires = 200, regex_rules = [],
        actions = [\<lparr>flow_name = ''ListDirectory'', argv = [''dir'', ''v_%s_2'']\<rparr>]\<rparr> =
      \<lparr>description = ''d'', created = 100, expires = 200, regex_rules = [], actions = []\<rparr>\<lparr>actions := actions
      \<lparr>description = ''d'', created = 100, expires = 200, regex_rules = [], actions = []\<rparr> @ acts\<rparr> \<and>
      list_all2 (action_for
      \<lparr>classes = [''ListDirectory'' \<mapsto> ''dir''],
        GetArgs = (\<lambda>flow_class request arg_template. Inr [flow_class, arg_template]),
        BuildArgs = (\<lambda>arg_list. Inr arg_list), ToProto = (\<lambda>args. args)\<rparr>
      \<lparr>REQ = [''flow_name_0'' \<mapsto> '''', ''flow_name_2'' \<mapsto> ''ListDirectory'']\<rparr>) (filter (flow_named
      \<lparr>REQ = [''flow_name_0'' \<mapsto> '''', ''flow_name_2'' \<mapsto> ''ListDirectory'']\<rparr>) [0..<100]) acts \<and>
      length acts \<le> 100)"
proof -
  have e: "ParseActionRules
      \<lparr>classes = [''ListDirectory'' \<mapsto> ''dir''],
        GetArgs = (\<lambda>flow_class request arg_template. Inr [flow_class, arg_template]),
        BuildArgs = (\<lambda>arg_list. Inr arg_list), ToProto = (\<lambda>args. args)\<rparr>
      \<lparr>REQ = [''flow_name_0'' \<mapsto> '''', ''flow_name_2'' \<mapsto> ''ListDirectory'']\<rparr>
      \<lparr>description = ''d'', created = 100, expires = 200, regex_rules = [], actions = []\<rparr> = Inr
      \<lparr>description = ''d'', created = 100, expires = 200, regex_rules = [],
        actions = [\<lparr>flow_name = ''ListDirectory'', argv = [''dir'', ''v_%s_2'']\<rparr>]\<rparr>"
    by (simp add: ParseActionRules_def upt_100 ParseActionRules_body_def str_nat.simps
        digit_char_def)
  show ?thesis
    using e ParseActionRules_actions [where env = "\<lparr>classes = [''ListDirectory'' \<mapsto> ''dir''],
        GetArgs = (\<lambda>flow_class request arg_template. Inr [flow_class, arg_template]),
        BuildArgs = (\<lambda>arg_list. Inr arg_list), ToProto = (\<lambda>args. args)\<rparr>"
      and request = "\<lparr>REQ = [''flow_name_0'' \<mapsto> '''', ''flow_name_2'' \<mapsto> ''ListDirectory'']\<rparr>"
      and foreman_rule = "\<lparr>description = ''d'', created = 100, expires = 200, regex_rules = [], actions = []\<rparr>"]
    by (simp only: sum.case)
qed

subsection \<open>The expiry check\<close>

text \<open>
  C1, as the code has it: a request whose parsed expiry time is strictly less than the
  creation time (the current time) fails with an error, and the stored object is not
  touched: no rule is added. When both timestamps fit their fields, the error is the
  error template of the expiry check; otherwise the constructor of the rule has raised
  before the check.
\<close>

theorem AddForemanRuleAction_rejects_expired:
  assumes "REQ request ''expires_text'' = Some expires_text"
    and "ParseFromHumanReadable expires_text = Some expire_date"
    and "expire_date < now"
  shows "AddForemanRuleAction_Layout env ParseFromHumanReadable timestamp_ok now request fd =
           (Inl (if timestamp_ok now \<and> timestamp_ok expire_date
                 then ErrorTemplate ''Rule already expired?'' else FieldValueError), fd)"
  using assms
  by (simp add: AddForemanRuleAction_Layout_def lookup_def new_ForemanRule_def)

text \<open>
  Two examples for C1: an expiry one microsecond before the creation time ends with the
  error template, and an expiry before 1970 ends with the error of the constructor; the
  store stays empty in both.
\<close>

theorem AddForemanRuleAction_rejects_expired_witness:
  "AddForemanRuleAction_Layout
      \<lparr>classes = [''ListDirectory'' \<mapsto> ''dir''],
        GetArgs = (\<lambda>flow_class request arg_template. Inr [flow_class, arg_template]),
        BuildArgs = (\<lambda>arg_list. Inr arg_list), ToProto = (\<lambda>args. args)\<rparr>
      (\<lambda>s. if s = ''1970-01-02'' then Some 86400000000 else None) uint64_ok 86400000001
      \<lparr>REQ = [''expires_text'' \<mapsto> ''1970-01-02'', ''description'' \<mapsto> ''all'']\<rparr>
      (\<lparr>RULES = None, flushes = 0\<rparr> :: string list foreman) =
   (Inl (ErrorTemplate ''Rule already expired?''), \<lparr>RULES = None, flushes = 0\<rparr>) \<and>
   AddForemanRuleAction_Layout
      \<lparr>classes = [''ListDirectory'' \<mapsto> ''dir''],
        GetArgs = (\<lambda>flow_class request arg_template. Inr [flow_class, arg_template]),
        BuildArgs = (\<lambda>arg_list. Inr arg_list), ToProto = (\<lambda>args. args)\<rparr>
      (\<lambda>s. if s = ''1969-12-31'' then Some (- 86400000000) else None) uint64_ok 86400000001
      \<lparr>REQ = [''expires_text'' \<mapsto> ''1969-12-31'']\<rparr>
      (\<lparr>RULES = None, flushes = 0\<rparr> :: string list foreman) =
   (Inl FieldValueError, \<lparr>RULES = None, flushes = 0\<rparr>)"
  using AddForemanRuleAction_rejects_expired
      [of "\<lparr>REQ = [''expires_text'' \<mapsto> ''1970-01-02'', ''description'' \<mapsto> ''all'']\<rparr>"
        "''1970-01-02''" "(\<lambda>s. if s = ''1970-01-02'' then Some 86400000000 else None)"
        86400000000 86400000001
        "\<lparr>classes = [''ListDirectory'' \<mapsto> ''dir''],
        GetArgs = (\<lambda>flow_class request arg_template. Inr [flow_class, arg_template]),
        BuildArgs = (\<lambda>arg_list. Inr arg_list), ToProto = (\<lambda>args. args)\<rparr>" uint64_ok
        "\<lparr>RULES = None, flushes = 0\<rparr> :: string list foreman"]
    AddForemanRuleAction_rejects_expired
      [of "\<lparr>REQ = [''expires_text'' \<mapsto> ''1969-12-31'']\<rparr>"
        "''1969-12-31''" "(\<lambda>s. if s = ''1969-12-31'' then Some (- 86400000000) else None)"
        "- 86400000000" 86400000001
        "\<lparr>classes = [''ListDirectory'' \<mapsto> ''dir''],
        GetArgs = (\<lambda>flow_class request arg_template. Inr [flow_class, arg_template]),
        BuildArgs = (\<lambda>arg_list. Inr arg_list), ToProto = (\<lambda>args. args)\<rparr>" uint64_ok
        "\<lparr>RULES = None, flushes = 0\<rparr> :: string list foreman"]
  by (simp add: uint64_ok_def)

text \<open>
  C1 as stated does not hold at the boundary: with the expiry time equal to the
  creation time, both within the range of the fields, the check \<open>expires < created\<close>
  passes, the handler ends with its normal layout and the rule is stored.
\<close>

theorem AddForemanRuleAction_boundary_counterexample:
  "AddForemanRuleAction_Layout
      \<lparr>classes = [''ListDirectory'' \<mapsto> ''dir''],
        GetArgs = (\<lambda>flow_class request arg_template. Inr [flow_class, arg_template]),
        BuildArgs = (\<lambda>arg_list. Inr arg_list), ToProto = (\<lambda>args. args)\<rparr>
      (\<lambda>s. if s = ''1970-01-02'' then Some 86400000000 else None) uint64_ok 86400000000
      \<lparr>REQ = [''expires_text'' \<mapsto> ''1970-01-02'', ''description'' \<mapsto> ''all'']\<rparr>
      \<lparr>RULES = None, flushes = 0\<rparr> =
   (Inr
      \<lparr>description = ''all'', created = 86400000000, expires = 86400000000,
        regex_rules = [], actions = []\<rparr>,
    \<lparr>RULES = Some
       [\<lparr>description = ''all'', created = 86400000000, expires = 86400000000,
        regex_rules = [], actions = []\<rparr>],
     flushes = 1\<rparr>)"
proof -
  have p: "ParseRegexRules
      \<lparr>REQ = [''expires_text'' \<mapsto> ''1970-01-02'', ''description'' \<mapsto> ''all'']\<rparr> r = r"
    for r :: "string list ForemanRule"
    by (rule ParseRegexRules_no_path) simp
  have a: "ParseActionRules
      \<lparr>classes = [''ListDirectory'' \<mapsto> ''dir''],
        GetArgs = (\<lambda>flow_class request arg_template. Inr [flow_class, arg_template]),
        BuildArgs = (\<lambda>arg_list. Inr arg_list), ToProto = (\<lambda>args. args)\<rparr>
      \<lparr>REQ = [''expires_text'' \<mapsto> ''1970-01-02'', ''description'' \<mapsto> ''all'']\<rparr> r = Inr r"
    for r :: "string list ForemanRule"
    unfolding ParseActionRules_def by (rule ParseActionRules_loop_no_flow) simp
  show ?thesis
    by (simp add: AddForemanRuleAction_Layout_def lookup_def new_ForemanRule_def uint64_ok_def
        p a AddRuleToForeman_def)
qed

section \<open>Properties of the Foreman engine\<close>

subsection \<open>Helper lemmas\<close>

lemma Evaluate_loop_fire:
  "Matches re_search r snapshot \<and> ShouldFire ledger client r \<Longrightarrow>
   Evaluate_loop re_search StartTask client snapshot (r # rs) ledger =
     ((r, Dispatch StartTask client (actions r)) #
        fst (Evaluate_loop re_search StartTask client snapshot rs
               (if Dispatch StartTask client (actions r) then RecordFired ledger client r
                else ledger)),
      snd (Evaluate_loop re_search StartTask client snapshot rs
             (if Dispatch StartTask client (actions r) then RecordFired ledger client r
              else ledger)))"
  by (simp add: Let_def case_prod_beta)

lemma Evaluate_loop_skip:
  "\<not> (Matches re_search r snapshot \<and> ShouldFire ledger client r) \<Longrightarrow>
   Evaluate_loop re_search StartTask client snapshot (r # rs) ledger =
     Evaluate_loop re_search StartTask client snapshot rs ledger"
  by auto

lemma Evaluate_unfold:
  "Evaluate re_search StartTask now rules client snapshot ledger =
     (fst (Evaluate_loop re_search StartTask client snapshot
             (sort_key created (Evaluate_candidates now rules client ledger)) ledger),
      AdvanceWatermark
        (snd (Evaluate_loop re_search StartTask client snapshot
                (sort_key created (Evaluate_candidates now rules client ledger)) ledger))
        client (Evaluate_candidates now rules client ledger))"
  by (simp add: Evaluate_def Let_def case_prod_beta)

lemma RecordFired_reached:
  "watermark_reached (RecordFired ledger client rule) client (created rule)"
  by (simp add: watermark_reached_def RecordFired_def split: option.splits)

lemma RecordFired_mono:
  "watermark_reached ledger c t \<Longrightarrow> watermark_reached (RecordFired ledger client rule) c t"
  by (auto simp: watermark_reached_def RecordFired_def split: option.splits)

lemma AdvanceWatermark_mono:
  "watermark_reached ledger c t \<Longrightarrow> watermark_reached (AdvanceWatermark ledger client rules) c t"
  unfolding AdvanceWatermark_def
  by (induction rules arbitrary: ledger) (simp_all add: RecordFired_mono)

lemma Evaluate_loop_mono:
  "watermark_reached ledger c t \<Longrightarrow>
   watermark_reached (snd (Evaluate_loop re_search StartTask client snapshot rs ledger)) c t"
proof (induction rs arbitrary: ledger)
  case Nil
  then show ?case by simp
next
  case (Cons r rs)
  show ?case
  proof (cases "Matches re_search r snapshot \<and> ShouldFire ledger client r")
    case False
    show ?thesis using Cons.IH [OF Cons.prems] by (simp only: Evaluate_loop_skip [OF False])
  next
    case True
    let ?l1 = "if Dispatch StartTask client (actions r) then RecordFired ledger client r else ledger"
    have "watermark_reached ?l1 c t" using Cons.prems by (simp add: RecordFired_mono)
    from Cons.IH [OF this] show ?thesis
      by (simp only: Evaluate_loop_fire [OF True] snd_conv)
  qed
qed

lemma Evaluate_loop_recorded:
  "(R, True) \<in> set (fst (Evaluate_loop re_search StartTask client snapshot rs ledger)) \<Longrightarrow>
   watermark_reached (snd (Evaluate_loop re_search StartTask client snapshot rs ledger)) client
     (created R)"
proof (induction rs arbitrary: ledger)
  case Nil
  then show ?case by simp
next
  case (Cons r rs)
  show ?case
  proof (cases "Matches re_search r snapshot \<and> ShouldFire ledger client r")
    case False
    show ?thesis using Cons.IH [of ledger] Cons.prems by (simp only: Evaluate_loop_skip [OF False])
  next
    case True
    let ?ok = "Dispatch StartTask client (actions r)"
    let ?l1 = "if ?ok then RecordFired ledger client r else ledger"
    let ?rest = "Evaluate_loop re_search StartTask client snapshot rs ?l1"
    have unf: "Evaluate_loop re_search StartTask client snapshot (r # rs) ledger =
        ((r, ?ok) # fst ?rest, snd ?rest)"
      using True by (rule Evaluate_loop_fire)
    from Cons.prems unf consider (here) "R = r" "?ok" | (later) "(R, True) \<in> set (fst ?rest)"
      by auto
    then show ?thesis
    proof cases
      case here
      then have "watermark_reached ?l1 client (created R)" by (simp add: RecordFired_reached)
      then have "watermark_reached (snd ?rest) client (created R)" by (rule Evaluate_loop_mono)
      then show ?thesis by (simp only: unf snd_conv)
    next
      case later
      then have "watermark_reached (snd ?rest) client (created R)" by (rule Cons.IH)
      then show ?thesis by (simp only: unf snd_conv)
    qed
  qed
qed

lemma Evaluate_loop_log_subset:
  "(R, b) \<in> set (fst (Evaluate_loop re_search StartTask client snapshot rs ledger)) \<Longrightarrow>
   R \<in> set rs"
proof (induction rs arbitrary: ledger)
  case Nil
  then show ?case by simp
next
  case (Cons r rs)
  show ?case
  proof (cases "Matches re_search r snapshot \<and> ShouldFire ledger client r")
    case False
    have "R \<in> set rs"
      using Cons.prems Cons.IH [of ledger] by (simp only: Evaluate_loop_skip [OF False])
    then show ?thesis by simp
  next
    case True
    let ?l1 = "if Dispatch StartTask client (actions r) then RecordFired ledger client r else ledger"
    from Cons.prems have "R = r \<or>
        (R, b) \<in> set (fst (Evaluate_loop re_search StartTask client snapshot rs ?l1))"
      by (simp only: Evaluate_loop_fire [OF True] fst_conv set_simps insert_iff prod.inject) blast
    then show ?thesis using Cons.IH [of ?l1] by auto
  qed
qed

lemma Evaluate_log_candidates:
  "(R, b) \<in> set (fst (Evaluate re_search StartTask now rules client snapshot ledger)) \<Longrightarrow>
   R \<in> set (Evaluate_candidates now rules client ledger)"
  using Evaluate_loop_log_subset [of R b re_search StartTask client snapshot
      "sort_key created (Evaluate_candidates now rules client ledger)" ledger]
  by (simp add: Evaluate_unfold)

lemma Evaluate_mono:
  "watermark_reached ledger c t \<Longrightarrow>
   watermark_reached (snd (Evaluate re_search StartTask now rules client snapshot ledger)) c t"
  using Evaluate_loop_mono [of ledger c t re_search StartTask client snapshot
      "sort_key created (Evaluate_candidates now rules client ledger)"]
  by (simp add: Evaluate_unfold AdvanceWatermark_mono)

lemma Evaluate_recorded:
  "(R, True) \<in> set (fst (Evaluate re_search StartTask now rules client snapshot ledger)) \<Longrightarrow>
   watermark_reached (snd (Evaluate re_search StartTask now rules client snapshot ledger)) client
     (created R)"
  using Evaluate_loop_recorded [of R re_search StartTask client snapshot
      "sort_key created (Evaluate_candidates now rules client ledger)" ledger]
  by (simp add: Evaluate_unfold AdvanceWatermark_mono)

lemma candidates_above_watermark:
  "watermark_reached ledger client (created R) \<Longrightarrow>
   R \<notin> set (Evaluate_candidates now rules client ledger)"
  by (auto simp: watermark_reached_def Evaluate_candidates_def split: option.splits)

lemma run_passes_mono:
  "watermark_reached ledger c t \<Longrightarrow>
   watermark_reached (fold (run_pass re_search) passes ledger) c t"
  by (induction passes arbitrary: ledger) (simp_all add: run_pass_def Evaluate_mono)

subsection \<open>At-most-once dispatch\<close>

text \<open>
  C5: if a pass for client \<open>C\<close> dispatched rule \<open>R\<close> successfully (and so recorded the
  firing), then after any number of further passes, for any clients, no pass for \<open>C\<close>
  dispatches \<open>R\<close> again, whatever the rule set, the time, the snapshot and the outcome
  of the task starts are.
\<close>

theorem Evaluate_at_most_once:
  assumes "(R, True) \<in> set (fst (Evaluate re_search StartTask1 now1 rules1 C snapshot1 ledger))"
  shows "R \<notin> fst ` set (fst (Evaluate re_search StartTask2 now2 rules2 C snapshot2
           (fold (run_pass re_search) passes
              (snd (Evaluate re_search StartTask1 now1 rules1 C snapshot1 ledger)))))"
proof -
  let ?l1 = "snd (Evaluate re_search StartTask1 now1 rules1 C snapshot1 ledger)"
  let ?l2 = "fold (run_pass re_search) passes ?l1"
  have "watermark_reached ?l1 C (created R)" using assms by (rule Evaluate_recorded)
  then have "watermark_reached ?l2 C (created R)" by (rule run_passes_mono)
  then have "R \<notin> set (Evaluate_candidates now2 rules2 C ?l2)"
    by (rule candidates_above_watermark)
  then show ?thesis
    by (auto dest: Evaluate_log_candidates)
qed

theorem Evaluate_at_most_once_witness:
  "(\<lparr>description = ''all clients'', created = 100, expires = 200, regex_rules = [],
        actions = [\<lparr>flow_name = ''A'', argv = ()\<rparr>]\<rparr>, True) \<in> set (fst (Evaluate (\<lambda>pattern value. Some True)
        (\<lambda>client task_name arguments. True) 150
        [\<lparr>description = ''all clients'', created = 100, expires = 200, regex_rules = [],
        actions = [\<lparr>flow_name = ''A'', argv = ()\<rparr>]\<rparr>] ''C.1'' Map.empty Map.empty)) \<and>
      \<lparr>description = ''all clients'', created = 100, expires = 200, regex_rules = [],
        actions = [\<lparr>flow_name = ''A'', argv = ()\<rparr>]\<rparr> \<notin> fst ` set (fst (Evaluate (\<lambda>pattern value. Some True)
        (\<lambda>client task_name arguments. True) 160
        [\<lparr>description = ''all clients'', created = 100, expires = 200, regex_rules = [],
        actions = [\<lparr>flow_name = ''A'', argv = ()\<rparr>]\<rparr>] ''C.1'' Map.empty
       (fold (run_pass (\<lambda>pattern value. Some True)) []
          (snd (Evaluate (\<lambda>pattern value. Some True)
        (\<lambda>client task_name arguments. True) 150
        [\<lparr>description = ''all clients'', created = 100, expires = 200, regex_rules = [],
        actions = [\<lparr>flow_name = ''A'', argv = ()\<rparr>]\<rparr>] ''C.1'' Map.empty Map.empty)))))"
proof -
  have h: "(\<lparr>description = ''all clients'', created = 100, expires = 200, regex_rules = [],
        actions = [\<lparr>flow_name = ''A'', argv = ()\<rparr>]\<rparr>, True) \<in>
      set (fst (Evaluate (\<lambda>pattern value. Some True)
        (\<lambda>client task_name arguments. True) 150
        [\<lparr>description = ''all clients'', created = 100, expires = 200, regex_rules = [],
        actions = [\<lparr>flow_name = ''A'', argv = ()\<rparr>]\<rparr>] ''C.1'' Map.empty Map.empty))"
    by (simp add: Evaluate_def Evaluate_candidates_def Matches_def ShouldFire_def)
  show ?thesis
    using h Evaluate_at_most_once
      [OF h, of "(\<lambda>client task_name arguments. True)" 160
        "[\<lparr>description = ''all clients'', created = 100, expires = 200, regex_rules = [],
        actions = [\<lparr>flow_name = ''A'', argv = ()\<rparr>]\<rparr>]" Map.empty "[]"]
    by simp
qed

subsection \<open>Rules without conditions\<close>

text \<open>
  C6: a rule whose condition list is empty matches every client attribute snapshot.
\<close>

theorem Matches_empty_conditions:
  "regex_rules R = [] \<Longrightarrow> Matches re_search R S"
  by (simp add: Matches_def)

theorem Matches_empty_conditions_witness:
  "regex_rules
      \<lparr>description = ''all clients'', created = 100, expires = 200, regex_rules = [],
        actions = [\<lparr>flow_name = ''A'', argv = ()\<rparr>]\<rparr> = [] \<and>
   Matches (\<lambda>pattern value. None)
      \<lparr>description = ''all clients'', created = 100, expires = 200, regex_rules = [],
        actions = [\<lparr>flow_name = ''A'', argv = ()\<rparr>]\<rparr> [''os'' \<mapsto> ''Linux x86_64'']"
proof -
  have h: "regex_rules
      \<lparr>description = ''all clients'', created = 100, expires = 200, regex_rules = [],
        actions = [\<lparr>flow_name = ''A'', argv = ()\<rparr>]\<rparr> = []" by simp
  show ?thesis
    using h Matches_empty_conditions [OF h, of "(\<lambda>pattern value. None)" "[''os'' \<mapsto> ''Linux x86_64'']"]
    by simp
qed

subsection \<open>Expired rules\<close>

text \<open>
  C7: a rule with \<open>expires \<le> now\<close> is not among the rules that a pass at time \<open>now\<close>
  tests for a match, and it is not dispatched, whatever its conditions and the snapshot
  are.
\<close>

theorem Evaluate_expired_inert:
  assumes "expires R \<le> now"
  shows "R \<notin> set (Evaluate_candidates now rules client ledger) \<and>
         R \<notin> fst ` set (fst (Evaluate re_search StartTask now rules client snapshot ledger))"
proof -
  have c: "R \<notin> set (Evaluate_candidates now rules client ledger)"
    using assms by (auto simp: Evaluate_candidates_def)
  then show ?thesis
    by (auto dest: Evaluate_log_candidates)
qed

theorem Evaluate_expired_inert_witness:
  "expires
      \<lparr>description = ''all clients'', created = 100, expires = 200, regex_rules = [],
        actions = [\<lparr>flow_name = ''A'', argv = ()\<rparr>]\<rparr> \<le> 200 \<and>
      \<lparr>description = ''all clients'', created = 100, expires = 200, regex_rules = [],
        actions = [\<lparr>flow_name = ''A'', argv = ()\<rparr>]\<rparr> \<notin> set (Evaluate_candidates 200
        [\<lparr>description = ''all clients'', created = 100, expires = 200, regex_rules = [],
        actions = [\<lparr>flow_name = ''A'', argv = ()\<rparr>]\<rparr>] ''C.1'' Map.empty) \<and>
      \<lparr>description = ''all clients'', created = 100, expires = 200, regex_rules = [],
        actions = [\<lparr>flow_name = ''A'', argv = ()\<rparr>]\<rparr> \<notin> fst ` set (fst (Evaluate (\<lambda>pattern value. Some True)
        (\<lambda>client task_name arguments. True) 200
        [\<lparr>description = ''all clients'', created = 100, expires = 200, regex_rules = [],
        actions = [\<lparr>flow_name = ''A'', argv = ()\<rparr>]\<rparr>] ''C.1'' Map.empty Map.empty))"
proof -
  have h: "expires
      \<lparr>description = ''all clients'', created = 100, expires = 200, regex_rules = [],
        actions = [\<lparr>flow_name = ''A'', argv = ()\<rparr>]\<rparr> \<le> 200" by simp
  show ?thesis
    using h Evaluate_expired_inert [OF h, of "[\<lparr>description = ''all clients'', created = 100, expires = 200, regex_rules = [],
        actions = [\<lparr>flow_name = ''A'', argv = ()\<rparr>]\<rparr>]"
      "''C.1''" Map.empty "(\<lambda>pattern value. Some True)"
      "(\<lambda>client task_name arguments. True)" Map.empty]
    by simp
qed

end
